theory Spec2Isabelle
  imports Complex_Main "HOL-Library.Log_Nat"
begin

section \<open>JavaScript numbers\<close>

text \<open>
  A finite IEEE-754 double is a dyadic rational, so the numbers of \<^verbatim>\<open>server/server.js\<close> are
  modelled as rationals and every arithmetic operation rounds its exact result to the nearest
  double, ties to even (53 significant bits). The exponent range is not modelled: the values
  computed here stay far from overflow and from the subnormal range, and neither NaN nor an
  infinity can arise (each division is guarded by the \<^verbatim>\<open>? :\<close> in front of it).
\<close>

definition binade :: "rat \<Rightarrow> int" where
  \<comment> \<open>for \<open>0 < q\<close>: the exponent \<open>e\<close> with \<open>2 powi e \<le> q < 2 powi (e + 1)\<close>\<close>
  "binade q = (if 1 \<le> q then bitlen \<lfloor>q\<rfloor> - 1 else - bitlen (\<lceil>1 / q\<rceil> - 1))"

definition roundTiesToEven :: "rat \<Rightarrow> int" where
  "roundTiesToEven r =
     (let f = \<lfloor>r\<rfloor>; d = r - of_int f
      in if d < 1 / 2 then f else if 1 / 2 < d then f + 1 else if even f then f else f + 1)"

definition fl_pos :: "rat \<Rightarrow> rat" where
  \<comment> \<open>for \<open>0 < q\<close>: the significand is scaled into \<open>[2^52, 2^53)\<close> and rounded to an integer\<close>
  "fl_pos q = (let e = binade q - 52 in of_int (roundTiesToEven (q / (2 powi e))) * (2 powi e))"

definition fl :: "rat \<Rightarrow> rat" where
  "fl q = (if q = 0 then 0 else if q < 0 then - fl_pos (- q) else fl_pos q)"

definition fadd :: "rat \<Rightarrow> rat \<Rightarrow> rat" where
  "fadd x y = fl (x + y)"

definition fmul :: "rat \<Rightarrow> rat \<Rightarrow> rat" where
  "fmul x y = fl (x * y)"

definition fdiv :: "rat \<Rightarrow> rat \<Rightarrow> rat" where
  \<comment> \<open>only called with \<open>y \<noteq> 0\<close>\<close>
  "fdiv x y = fl (x / y)"

text \<open>
  \<^verbatim>\<open>Number.prototype.toFixed(2)\<close> (ECMA-262, 21.1.3.3): a negative \<open>x\<close> gives the sign
  \<^verbatim>\<open>"-"\<close> and is negated; \<open>n\<close> is the integer for which \<open>n / 100 - x\<close> is as close to zero as
  possible, the larger one if there are two; the decimal digits of \<open>n\<close> are padded with zeros
  on the left to three characters and the point goes in front of the last two. The standard's
  other branch, \<open>10^21 \<le> x\<close>, needs a mean response time beyond what \<^verbatim>\<open>Date.now()\<close> can
  measure (its range ends at 8.64e15) and is left out.
\<close>

definition digit :: "int \<Rightarrow> char" where
  "digit d = (if d = 0 then CHR ''0'' else if d = 1 then CHR ''1'' else if d = 2 then CHR ''2''
              else if d = 3 then CHR ''3'' else if d = 4 then CHR ''4'' else if d = 5 then CHR ''5''
              else if d = 6 then CHR ''6'' else if d = 7 then CHR ''7'' else if d = 8 then CHR ''8''
              else CHR ''9'')"

function digits :: "int \<Rightarrow> string" where
  "digits n = (if n < 10 then [digit n] else digits (n div 10) @ [digit (n mod 10)])"
  by pat_completeness auto
termination
  by (relation "measure nat") auto

declare digits.simps [simp del]

definition toFixed_n :: "rat \<Rightarrow> int" where
  "toFixed_n x = \<lfloor>\<bar>x\<bar> * 100 + 1 / 2\<rfloor>"

definition fixed2 :: "int \<Rightarrow> string" where
  \<comment> \<open>the hundredths \<open>n\<close> written with two decimals\<close>
  "fixed2 n =
     (let m = digits n;
          m = (if length m \<le> 2 then replicate (3 - length m) CHR ''0'' @ m else m);
          k = length m
      in take (k - 2) m @ ''.'' @ drop (k - 2) m)"

definition toFixed2 :: "rat \<Rightarrow> string" where
  "toFixed2 x = (if x < 0 then ''-'' else '''') @ fixed2 (toFixed_n x)"

text \<open>What a printed number denotes: the digits read as a decimal numeral, the point set
  aside, are the hundredths.\<close>

definition digit_value :: "char \<Rightarrow> int" where
  "digit_value c = of_char c - 48"

definition decimal_value :: "string \<Rightarrow> int" where
  "decimal_value s = foldl (\<lambda>a c. 10 * a + digit_value c) 0 s"

definition read_fixed2 :: "string \<Rightarrow> rat" where
  "read_fixed2 s = of_int (decimal_value (filter (\<lambda>c. c \<noteq> CHR ''.'') s)) / 100"


section \<open>Data model\<close>

text \<open>
  A \<^verbatim>\<open>Date\<close> object is used through \<^verbatim>\<open>toDateString()\<close> (the local calendar day, the key of
  the rollover comparison) and \<^verbatim>\<open>toISOString()\<close> only, so it is modelled by what these two
  methods return.
\<close>

record date_obj =
  toDateString :: string
  toISOString :: string

text \<open>
  The result object built in \<^verbatim>\<open>checkWebsite\<close>. \<^verbatim>\<open>status: null\<close> is \<open>None\<close>; the property
  \<^verbatim>\<open>error\<close> exists in the failure branch only and is \<open>None\<close> when absent. \<^verbatim>\<open>responseTime\<close> is a
  difference of two \<^verbatim>\<open>Date.now()\<close> readings, an integer number of milliseconds.
\<close>

record CheckResult =
  timestamp :: date_obj
  status :: "int option"
  responseTime :: int
  success :: bool
  error :: "string option"

record Summary =
  totalChecks :: int
  successful :: int
  failed :: int
  uptimePercentage :: string
  averageResponseTime :: string

record DayData =
  date :: string
  logs :: "CheckResult list"
  summary :: Summary

record server_state =
  currentDayKey :: string
  currentDayData :: DayData
  pastDays :: "DayData list"

text \<open>The Socket.IO events; an emitted payload is serialised when \<^verbatim>\<open>io.emit\<close> is called.\<close>

datatype event =
    NewCheck CheckResult
  | SummaryUpdate Summary
  | DailySummaryUpdate "DayData list"

text \<open>What \<^verbatim>\<open>await axios.get(WEBSITE_URL, { timeout: 10000 })\<close> does: the promise is fulfilled
  with a response, or rejected with an error that carries a message and, if the server
  answered, the response.\<close>

datatype AxiosResponse = AxiosResponse (response_status: int)

datatype AxiosError = AxiosError (error_response: "AxiosResponse option") (error_message: string)

datatype axios_outcome = Fulfilled AxiosResponse | Rejected AxiosError

datatype js_value = Undefined | Boolean bool


section \<open>The day-bucketed server\<close>

definition emptySummary :: Summary where
  \<comment> \<open>the literal of lines 25-31 and 90-96\<close>
  "emptySummary =
     \<lparr>totalChecks = 0, successful = 0, failed = 0,
      uptimePercentage = ''N/A'', averageResponseTime = ''N/A''\<rparr>"

definition initial_state :: "date_obj \<Rightarrow> date_obj \<Rightarrow> server_state" where
  \<comment> \<open>lines 21-33; \<open>d1\<close> and \<open>d2\<close> are the two \<^verbatim>\<open>new Date()\<close> of lines 21 and 23\<close>
  "initial_state d1 d2 =
     \<lparr>currentDayKey = toDateString d1,
      currentDayData = \<lparr>date = toISOString d2, logs = [], summary = emptySummary\<rparr>,
      pastDays = []\<rparr>"

definition sumResponseTime :: "CheckResult list \<Rightarrow> rat" where
  \<comment> \<open>\<^verbatim>\<open>successfulChecks.reduce((sum, check) => sum + check.responseTime, 0)\<close>\<close>
  "sumResponseTime cs = foldl (\<lambda>sum check. fadd sum (of_int (responseTime check))) 0 cs"

definition computeSummaryForResults :: "CheckResult list \<Rightarrow> Summary" where
  "computeSummaryForResults results =
     (let total = int (length results);
          successfulChecks = filter success results;
          failedChecks = total - int (length successfulChecks);
          uptime =
            (if total \<noteq> 0
             then toFixed2 (fmul (fdiv (of_int (int (length successfulChecks))) (of_int total)) 100)
             else ''N/A'');
          average =
            (if 0 < length successfulChecks
             then toFixed2 (fdiv (sumResponseTime successfulChecks)
                                 (of_int (int (length successfulChecks))))
             else ''N/A'')
      in \<lparr>totalChecks = total, successful = int (length successfulChecks), failed = failedChecks,
          uptimePercentage = uptime, averageResponseTime = average\<rparr>)"

definition checkWebsite_result :: "int \<Rightarrow> axios_outcome \<Rightarrow> int \<Rightarrow> date_obj \<Rightarrow> CheckResult" where
  \<comment> \<open>lines 56-78: \<open>start\<close> and \<open>finish\<close> are the \<^verbatim>\<open>Date.now()\<close> readings before and after the
      request, \<open>ts\<close> the \<^verbatim>\<open>new Date()\<close> of the result\<close>
  "checkWebsite_result start outcome finish ts =
     (case outcome of
        Fulfilled response \<Rightarrow>
          \<lparr>timestamp = ts, status = Some (response_status response),
           responseTime = finish - start, success = True, error = None\<rparr>
      | Rejected err \<Rightarrow>
          \<lparr>timestamp = ts,
           status = (case error_response err of Some r \<Rightarrow> Some (response_status r) | None \<Rightarrow> None),
           responseTime = finish - start, success = False, error = Some (error_message err)\<rparr>)"

definition rollover :: "server_state \<Rightarrow> date_obj \<Rightarrow> event list \<times> server_state" where
  \<comment> \<open>lines 81-99\<close>
  "rollover s now =
     (if toDateString now \<noteq> currentDayKey s
      then (let past = currentDayData s # pastDays s;
                fresh = \<lparr>date = toISOString now, logs = [], summary = emptySummary\<rparr>
            in ([DailySummaryUpdate (fresh # past)],
                \<lparr>currentDayKey = toDateString now, currentDayData = fresh, pastDays = past\<rparr>))
      else ([], s))"

definition checkWebsite_record ::
    "server_state \<Rightarrow> CheckResult \<Rightarrow> date_obj \<Rightarrow> js_value \<times> event list \<times> server_state" where
  \<comment> \<open>lines 80-109; the function has no \<^verbatim>\<open>return\<close>, its promise resolves to \<^verbatim>\<open>undefined\<close>\<close>
  "checkWebsite_record s result now =
     (let (emitted, s1) = rollover s now;
          pushed = (currentDayData s1)\<lparr>logs := logs (currentDayData s1) @ [result]\<rparr>;
          current = pushed\<lparr>summary := computeSummaryForResults (logs pushed)\<rparr>;
          s2 = s1\<lparr>currentDayData := current\<rparr>
      in (Undefined,
          emitted @ [NewCheck result, SummaryUpdate (summary current),
                     DailySummaryUpdate (current # pastDays s2)],
          s2))"

record cycle =
  start_ms :: int
  outcome :: axios_outcome
  finish_ms :: int
  result_date :: date_obj
  now_date :: date_obj

definition cycle_result :: "cycle \<Rightarrow> CheckResult" where
  "cycle_result c = checkWebsite_result (start_ms c) (outcome c) (finish_ms c) (result_date c)"

definition checkWebsite :: "server_state \<Rightarrow> cycle \<Rightarrow> js_value \<times> event list \<times> server_state" where
  \<comment> \<open>one call of \<^verbatim>\<open>checkWebsite\<close>, lines 55-109; what the clock and the network give it is
      the \<open>cycle\<close>. Nothing is awaited after line 59, so lines 60-108 of one call run
      without interruption and the calls act on the store one after the other.\<close>
  "checkWebsite s c = checkWebsite_record s (cycle_result c) (now_date c)"

fun run :: "server_state \<Rightarrow> cycle list \<Rightarrow> server_state" where
  "run s [] = s"
| "run s (c # cs) = run (snd (snd (checkWebsite s c))) cs"

definition day_changed :: "server_state \<Rightarrow> cycle \<Rightarrow> bool" where
  \<comment> \<open>the test of line 82\<close>
  "day_changed s c = (toDateString (now_date c) \<noteq> currentDayKey s)"

definition summary_consistent :: "DayData \<Rightarrow> bool" where
  "summary_consistent b = (summary b = computeSummaryForResults (logs b))"

definition store_consistent :: "server_state \<Rightarrow> bool" where
  "store_consistent s =
     (summary_consistent (currentDayData s) \<and> list_all summary_consistent (pastDays s))"

fun dailySummaryUpdates :: "event list \<Rightarrow> DayData list list" where
  "dailySummaryUpdates [] = []"
| "dailySummaryUpdates (DailySummaryUpdate days # es) = days # dailySummaryUpdates es"
| "dailySummaryUpdates (e # es) = dailySummaryUpdates es"


section \<open>The rolling-list variant\<close>

text \<open>The second \<^verbatim>\<open>server/server.js\<close> keeps every result in the global \<^verbatim>\<open>checkResults\<close>,
  which \<^verbatim>\<open>computeSummary()\<close> reads.\<close>

record rolling_state =
  checkResults :: "CheckResult list"

definition computeSummary :: "rolling_state \<Rightarrow> Summary" where
  "computeSummary st =
     (let total = int (length (checkResults st));
          successfulChecks = filter (\<lambda>check. success check) (checkResults st);
          failedChecks = total - int (length successfulChecks);
          uptime =
            (if total \<noteq> 0
             then toFixed2 (fmul (fdiv (of_int (int (length successfulChecks))) (of_int total)) 100)
             else ''N/A'');
          average =
            (if 0 < length successfulChecks
             then toFixed2
                    (fdiv (foldl (\<lambda>sum check. fadd sum (of_int (responseTime check))) 0
                             successfulChecks)
                          (of_int (int (length successfulChecks))))
             else ''N/A'')
      in \<lparr>totalChecks = total, successful = int (length successfulChecks), failed = failedChecks,
          uptimePercentage = uptime, averageResponseTime = average\<rparr>)"


section \<open>The summary computation on an explicit store\<close>

text \<open>
  To speak about side effects, \<^verbatim>\<open>computeSummaryForResults\<close> is written a second time with the
  arrays of the program in a store, an array being addressed by its position there. The
  argument \<open>results\<close> is the address of the log; \<^verbatim>\<open>filter\<close> allocates the array of the
  successful checks, \<^verbatim>\<open>length\<close> and \<^verbatim>\<open>reduce\<close> only read; the returned object is a fresh one.
\<close>

type_synonym store = "CheckResult list list"

definition computeSummaryForResults_store :: "store \<Rightarrow> nat \<Rightarrow> Summary \<times> store" where
  "computeSummaryForResults_store st results =
     (let total = int (length (st ! results));
          successfulChecks = length st;
          st1 = st @ [filter success (st ! results)];
          failedChecks = total - int (length (st1 ! successfulChecks));
          uptime =
            (if total \<noteq> 0
             then toFixed2 (fmul (fdiv (of_int (int (length (st1 ! successfulChecks))))
                                       (of_int total)) 100)
             else ''N/A'');
          average =
            (if 0 < length (st1 ! successfulChecks)
             then toFixed2 (fdiv (sumResponseTime (st1 ! successfulChecks))
                                 (of_int (int (length (st1 ! successfulChecks)))))
             else ''N/A'')
      in (\<lparr>totalChecks = total, successful = int (length (st1 ! successfulChecks)),
           failed = failedChecks, uptimePercentage = uptime, averageResponseTime = average\<rparr>,
          st1))"


section \<open>The scheduler\<close>

text \<open>
  Lines 125-126: \<^verbatim>\<open>setInterval(checkWebsite, CHECK_INTERVAL); checkWebsite();\<close>. Time is counted
  in milliseconds from the start of the process. Probe \<open>0\<close> is the direct call, probe \<open>k\<close> the
  call made by the \<open>k\<close>-th tick of the timer; the timer calls \<^verbatim>\<open>checkWebsite\<close> at every tick
  and looks at nothing else. A probe is in flight from its call until its request has settled
  and the rest of \<^verbatim>\<open>checkWebsite\<close> has run, \<open>duration k\<close> milliseconds later.
\<close>

definition CHECK_INTERVAL :: nat where
  "CHECK_INTERVAL = 60000"

definition dispatched_at :: "nat \<Rightarrow> nat" where
  "dispatched_at k = k * CHECK_INTERVAL"

definition in_flight :: "(nat \<Rightarrow> nat) \<Rightarrow> nat \<Rightarrow> nat list" where
  \<comment> \<open>the probes in flight at time \<open>t\<close>; only the probes \<open>0 .. t div CHECK_INTERVAL\<close> have been
      dispatched by then\<close>
  "in_flight duration t =
     filter (\<lambda>k. dispatched_at k \<le> t \<and> t < dispatched_at k + duration k)
            [0 ..< Suc (t div CHECK_INTERVAL)]"


section \<open>Example inputs\<close>

definition monday :: date_obj where
  "monday = \<lparr>toDateString = ''Mon Nov 02 2026'', toISOString = ''2026-11-02T23:59:30.000Z''\<rparr>"

definition tuesday :: date_obj where
  "tuesday = \<lparr>toDateString = ''Tue Nov 03 2026'', toISOString = ''2026-11-03T00:00:30.000Z''\<rparr>"

definition friday :: date_obj where
  "friday = \<lparr>toDateString = ''Fri Nov 06 2026'', toISOString = ''2026-11-06T08:00:00.000Z''\<rparr>"

definition ok_cycle :: "int \<Rightarrow> date_obj \<Rightarrow> cycle" where
  "ok_cycle ms d =
     \<lparr>start_ms = 0, outcome = Fulfilled (AxiosResponse 200), finish_ms = ms,
      result_date = d, now_date = d\<rparr>"

definition timeout_cycle :: "date_obj \<Rightarrow> cycle" where
  "timeout_cycle d =
     \<lparr>start_ms = 0, outcome = Rejected (AxiosError None ''timeout of 10000ms exceeded''),
      finish_ms = 10003, result_date = d, now_date = d\<rparr>"

definition monday_state :: server_state where
  "monday_state = run (initial_state monday monday) [ok_cycle 100 monday, timeout_cycle monday]"

definition slow_probes :: "nat \<Rightarrow> nat" where
  \<comment> \<open>every probe takes 70 seconds\<close>
  "slow_probes k = 70000"

definition fast_probes :: "nat \<Rightarrow> nat" where
  \<comment> \<open>every probe ends with the 10 second timeout of its request\<close>
  "fast_probes k = 10000"

definition example_store :: store where
  "example_store = [logs (currentDayData monday_state)]"

definition scenario_log :: "CheckResult list" where
  \<comment> \<open>a success in 100 ms, a timeout, a success in 300 ms\<close>
  "scenario_log =
     [cycle_result (ok_cycle 100 monday), cycle_result (timeout_cycle monday),
      cycle_result (ok_cycle 300 monday)]"


section \<open>Rounding to the nearest double\<close>

lemma roundTiesToEven_close: "\<bar>of_int (roundTiesToEven r) - r\<bar> \<le> 1 / 2"
proof -
  have "of_int \<lfloor>r\<rfloor> \<le> r" "r < of_int \<lfloor>r\<rfloor> + 1"
    by linarith+
  then show ?thesis
    by (auto simp: roundTiesToEven_def Let_def)
qed

lemma roundTiesToEven_of_int [simp]: "roundTiesToEven (of_int k) = k"
  by (simp add: roundTiesToEven_def)

lemma powi_nat: "0 \<le> j \<Longrightarrow> (2::rat) powi j = 2 ^ nat j"
  by (simp add: power_int_def)

lemma powi_neg_nat: "0 \<le> j \<Longrightarrow> (2::rat) powi (- j) = 1 / 2 ^ nat j"
  by (simp only: power_int_minus powi_nat inverse_eq_divide)

lemma binade_lower:
  assumes "0 < q"
  shows "2 powi (binade q) \<le> q"
proof (cases "1 \<le> q")
  case True
  then have pos: "0 < \<lfloor>q\<rfloor>" by linarith
  from bitlen_bounds [OF pos] have "2 ^ nat (bitlen \<lfloor>q\<rfloor> - 1) \<le> \<lfloor>q\<rfloor>" by simp
  then have "(of_int (2 ^ nat (bitlen \<lfloor>q\<rfloor> - 1)) :: rat) \<le> of_int \<lfloor>q\<rfloor>"
    by (simp only: of_int_le_iff)
  also have "\<dots> \<le> q" by linarith
  finally have "(2::rat) ^ nat (bitlen \<lfloor>q\<rfloor> - 1) \<le> q" by simp
  moreover have "1 \<le> bitlen \<lfloor>q\<rfloor>"
    using pos by (simp add: bitlen_alt_def)
  ultimately show ?thesis
    using True by (simp add: binade_def power_int_def)
next
  case False
  define c where "c = \<lceil>1 / q\<rceil>"
  have "1 < 1 / q" using False assms by simp
  then have c2: "2 \<le> c" unfolding c_def by linarith
  then have pos: "0 < c - 1" by simp
  from bitlen_bounds [OF pos] have "c - 1 < 2 ^ nat (bitlen (c - 1))" by simp
  then have "c \<le> 2 ^ nat (bitlen (c - 1))" by simp
  then have "(of_int c :: rat) \<le> of_int (2 ^ nat (bitlen (c - 1)))"
    by (simp only: of_int_le_iff)
  then have "(of_int c :: rat) \<le> 2 ^ nat (bitlen (c - 1))" by simp
  moreover have "1 / q \<le> of_int c" unfolding c_def by linarith
  ultimately have "1 / q \<le> 2 ^ nat (bitlen (c - 1))" by linarith
  then have "1 / 2 ^ nat (bitlen (c - 1)) \<le> q"
    using assms by (simp add: field_simps)
  moreover have "0 \<le> bitlen (c - 1)" by (rule bitlen_nonneg)
  ultimately show ?thesis
    using False by (simp add: binade_def powi_neg_nat c_def)
qed


lemma binade_upper:
  assumes "0 < q"
  shows "q < 2 powi (binade q + 1)"
proof (cases "1 \<le> q")
  case True
  then have pos: "0 < \<lfloor>q\<rfloor>" by linarith
  from bitlen_bounds [OF pos] have "\<lfloor>q\<rfloor> + 1 \<le> 2 ^ nat (bitlen \<lfloor>q\<rfloor>)" by simp
  then have "(of_int (\<lfloor>q\<rfloor> + 1) :: rat) \<le> of_int (2 ^ nat (bitlen \<lfloor>q\<rfloor>))"
    by (simp only: of_int_le_iff)
  moreover have "q < of_int (\<lfloor>q\<rfloor> + 1)" by simp linarith
  ultimately have "q < 2 ^ nat (bitlen \<lfloor>q\<rfloor>)" by simp
  then show ?thesis
    using True bitlen_nonneg [of "\<lfloor>q\<rfloor>"] by (simp add: binade_def powi_nat)
next
  case False
  define c where "c = \<lceil>1 / q\<rceil>"
  have "1 < 1 / q" using False assms by simp
  then have c2: "2 \<le> c" unfolding c_def by linarith
  then have pos: "0 < c - 1" by simp
  then have j1: "1 \<le> bitlen (c - 1)"
    by (simp add: bitlen_ge_iff_power)
  from bitlen_bounds [OF pos] have "2 ^ nat (bitlen (c - 1) - 1) \<le> c - 1" by simp
  then have "(of_int (2 ^ nat (bitlen (c - 1) - 1)) :: rat) \<le> of_int (c - 1)"
    by (simp only: of_int_le_iff)
  moreover have "of_int (c - 1) < 1 / q" unfolding c_def by simp linarith
  ultimately have "2 ^ nat (bitlen (c - 1) - 1) < 1 / q" by simp
  then have "q < 1 / 2 ^ nat (bitlen (c - 1) - 1)"
    using assms by (simp add: field_simps)
  moreover have "(2::rat) powi (- (bitlen (c - 1) - 1)) = 1 / 2 ^ nat (bitlen (c - 1) - 1)"
    using j1 by (intro powi_neg_nat) simp
  ultimately show ?thesis
    using False by (simp add: binade_def c_def)
qed

text \<open>The scaled significand has 53 bits, as that of a normal double has.\<close>

lemma significand_range:
  assumes "0 < q"
  shows "2 ^ 52 \<le> q / 2 powi (binade q - 52)" and "q / 2 powi (binade q - 52) < 2 ^ 53"
proof -
  have split: "(2::rat) powi (binade q) = 2 powi (binade q - 52) * 2 ^ 52"
    "(2::rat) powi (binade q + 1) = 2 powi (binade q - 52) * 2 ^ 53"
    by (simp_all add: power_int_diff power_int_add)
  have p: "(0::rat) < 2 powi (binade q - 52)" by simp
  show "2 ^ 52 \<le> q / 2 powi (binade q - 52)"
    using binade_lower [OF assms] p unfolding split(1) by (simp add: field_simps)
  show "q / 2 powi (binade q - 52) < 2 ^ 53"
    using binade_upper [OF assms] p unfolding split(2) by (simp add: field_simps)
qed

lemma fl_pos_error:
  assumes "0 < q"
  shows "\<bar>fl_pos q - q\<bar> \<le> q / 2 ^ 53"
proof -
  define p where "p = (2::rat) powi (binade q - 52)"
  define r where "r = q / p"
  have p_pos: "0 < p"
    by (simp add: p_def)
  have "p * 2 ^ 52 = 2 powi (binade q - 52) * 2 powi 52"
    by (simp add: p_def)
  also have "\<dots> = 2 powi (binade q - 52 + 52)"
    by (rule power_int_add [symmetric]) simp
  also have "\<dots> = 2 powi (binade q)"
    by simp
  also have "\<dots> \<le> q"
    by (rule binade_lower [OF assms])
  finally have "2 ^ 52 \<le> r"
    using p_pos by (simp add: r_def field_simps)
  then have "1 / 2 \<le> r / 2 ^ 53"
    by simp
  with roundTiesToEven_close [of r] have "\<bar>of_int (roundTiesToEven r) - r\<bar> \<le> r / 2 ^ 53"
    by linarith
  then have le: "\<bar>of_int (roundTiesToEven r) - r\<bar> * p \<le> r / 2 ^ 53 * p"
    using p_pos by (simp add: mult_le_cancel_right)
  have "fl_pos q - q = (of_int (roundTiesToEven r) - r) * p"
    using p_pos by (simp add: fl_pos_def Let_def p_def r_def field_simps)
  then have "\<bar>fl_pos q - q\<bar> = \<bar>of_int (roundTiesToEven r) - r\<bar> * p"
    using p_pos by (simp add: abs_mult)
  also note le
  also have "r / 2 ^ 53 * p = q / 2 ^ 53"
    using p_pos by (simp add: r_def)
  finally show ?thesis .
qed

lemma fl_error: "\<bar>fl q - q\<bar> \<le> \<bar>q\<bar> / 2 ^ 53"
proof -
  consider "q = 0" | "q < 0" | "0 < q" by linarith
  then show ?thesis
  proof cases
    case 1
    then show ?thesis by (simp add: fl_def)
  next
    case 2
    then have "\<bar>fl_pos (- q) - (- q)\<bar> \<le> (- q) / 2 ^ 53"
      by (intro fl_pos_error) simp
    with 2 show ?thesis by (simp add: fl_def abs_if split: if_splits)
  next
    case 3
    with fl_pos_error [of q] show ?thesis by (simp add: fl_def)
  qed
qed

lemma fl_pos_nonneg:
  assumes "0 < q"
  shows "0 \<le> fl_pos q"
proof -
  have "q / 2 ^ 53 \<le> q"
    using assms by (simp add: field_simps)
  with fl_pos_error [OF assms] show ?thesis
    by linarith
qed

lemma fl_nonneg: "0 \<le> q \<Longrightarrow> 0 \<le> fl q"
  using fl_pos_nonneg [of q] by (simp add: fl_def)


lemma floor_on_grid:
  fixes z :: rat and a D :: int
  assumes "0 < D" and "\<bar>z - of_int a / of_int D\<bar> < 1 / of_int D"
  shows "(of_int a :: rat) / of_int D - 1 \<le> of_int \<lfloor>z\<rfloor>"
    and "(of_int \<lfloor>z\<rfloor> :: rat) \<le> of_int a / of_int D"
proof -
  have D: "(0::rat) < of_int D"
    using assms(1) by simp
  have lo: "of_int \<lfloor>z\<rfloor> \<le> z" and hi: "z < of_int \<lfloor>z\<rfloor> + 1"
    by linarith+
  from assms(2) have "z < of_int a / of_int D + 1 / of_int D"
    and "of_int a / of_int D - 1 / of_int D < z"
    by (simp_all add: abs_less_iff)
  then have "z * of_int D < of_int a + 1" and "of_int a - 1 < z * of_int D"
    using D by (simp_all add: field_simps)
  moreover have "of_int \<lfloor>z\<rfloor> * of_int D \<le> z * of_int D"
    and "z * of_int D < (of_int \<lfloor>z\<rfloor> + 1) * of_int D"
    using lo hi D by (simp_all add: mult_le_cancel_right mult_less_cancel_right)
  ultimately have "(of_int (\<lfloor>z\<rfloor> * D) :: rat) < of_int (a + 1)"
    and "(of_int (a - 1) :: rat) < of_int ((\<lfloor>z\<rfloor> + 1) * D)"
    by simp_all
  then have "\<lfloor>z\<rfloor> * D < a + 1" and "a - 1 < (\<lfloor>z\<rfloor> + 1) * D"
    by (simp_all only: of_int_less_iff)
  then have "\<lfloor>z\<rfloor> * D \<le> a" and "a \<le> (\<lfloor>z\<rfloor> + 1) * D"
    by simp_all
  then have "(of_int (\<lfloor>z\<rfloor> * D) :: rat) \<le> of_int a" and "(of_int a :: rat) \<le> of_int ((\<lfloor>z\<rfloor> + 1) * D)"
    by (simp_all only: of_int_le_iff)
  then show "(of_int a :: rat) / of_int D - 1 \<le> of_int \<lfloor>z\<rfloor>"
    and "(of_int \<lfloor>z\<rfloor> :: rat) \<le> of_int a / of_int D"
    using D by (simp_all add: field_simps)
qed

lemma fl_of_int:
  assumes "0 \<le> k" and "k < 2 ^ 53"
  shows "fl (of_int k) = of_int k"
proof (cases "k = 0")
  case True
  then show ?thesis by (simp add: fl_def)
next
  case False
  with assms have pos: "0 < k" by simp
  then have one: "(1::rat) \<le> of_int k" by simp
  have len: "1 \<le> bitlen k" "bitlen k \<le> 53"
    using pos assms(2) by (simp_all add: bitlen_le_iff_power bitlen_ge_iff_power)
  define j where "j = nat (53 - bitlen k)"
  have e: "binade (of_int k) - 52 = - int j"
    using one len by (simp add: binade_def j_def)
  have p: "(2::rat) powi (- int j) = 1 / 2 ^ j"
    using powi_neg_nat [of "int j"] by simp
  have "of_int k / (1 / 2 ^ j) = (of_int (k * 2 ^ j) :: rat)"
    by simp
  then have "fl_pos (of_int k) = of_int (k * 2 ^ j) * (1 / 2 ^ j)"
    unfolding fl_pos_def Let_def e p by (simp only: roundTiesToEven_of_int)
  then show ?thesis
    using pos by (simp add: fl_def)
qed

lemma sumResponseTime_exact_aux:
  assumes "\<forall>c \<in> set cs. 0 \<le> responseTime c" and "0 \<le> acc"
    and "acc + sum_list (map responseTime cs) < 2 ^ 53"
  shows "foldl (\<lambda>sum check. fadd sum (of_int (responseTime check))) (of_int acc) cs
           = of_int (acc + sum_list (map responseTime cs))"
  using assms
proof (induction cs arbitrary: acc)
  case Nil
  then show ?case by simp
next
  case (Cons c cs)
  have nonneg: "0 \<le> sum_list (map responseTime cs)"
    using Cons.prems(1) by (intro sum_list_nonneg) auto
  have "fadd (of_int acc) (of_int (responseTime c)) = fl (of_int (acc + responseTime c))"
    by (simp add: fadd_def)
  also have "\<dots> = of_int (acc + responseTime c)"
    using Cons.prems nonneg by (intro fl_of_int) auto
  finally have step: "fadd (of_int acc) (of_int (responseTime c)) = of_int (acc + responseTime c)" .
  have "foldl (\<lambda>sum check. fadd sum (of_int (responseTime check))) (of_int (acc + responseTime c)) cs
          = of_int (acc + responseTime c + sum_list (map responseTime cs))"
    using Cons.prems by (intro Cons.IH) auto
  then show ?case
    by (simp add: step add.assoc)
qed

lemma sumResponseTime_exact:
  assumes "\<forall>c \<in> set cs. 0 \<le> responseTime c" and "sum_list (map responseTime cs) < 2 ^ 53"
  shows "sumResponseTime cs = of_int (sum_list (map responseTime cs))"
  using sumResponseTime_exact_aux [of cs 0] assms by (simp add: sumResponseTime_def)


lemma toFixed_n_nearest:
  fixes x :: rat and a D :: int
  assumes "0 \<le> x" and "0 < D" and "100 * \<bar>x - (of_int a / of_int D - 1 / 2) / 100\<bar> < 1 / of_int D"
  shows "\<bar>of_int (toFixed_n x) - (of_int a / of_int D - 1 / 2)\<bar> \<le> (1 / 2 :: rat)"
proof -
  have "\<bar>(x * 100 + 1 / 2) - of_int a / of_int D\<bar> = 100 * \<bar>x - (of_int a / of_int D - 1 / 2) / 100\<bar>"
    by (simp add: abs_if field_simps)
  with assms(3) have "\<bar>(x * 100 + 1 / 2) - of_int a / of_int D\<bar> < 1 / of_int D"
    by simp
  from floor_on_grid [OF assms(2) this]
  have "of_int a / of_int D - 1 \<le> (of_int \<lfloor>x * 100 + 1 / 2\<rfloor> :: rat)"
    and "(of_int \<lfloor>x * 100 + 1 / 2\<rfloor> :: rat) \<le> of_int a / of_int D" .
  moreover have "toFixed_n x = \<lfloor>x * 100 + 1 / 2\<rfloor>"
    using assms(1) by (simp add: toFixed_n_def)
  ultimately show ?thesis
    by (simp only: abs_le_iff) linarith
qed

lemma uptime_nearest:
  fixes S N :: int
  assumes "0 \<le> S" and "S \<le> N" and "0 < N" and "N < 2 ^ 32"
  defines "x \<equiv> fmul (fdiv (of_int S) (of_int N)) 100"
  shows "0 \<le> x" and "\<bar>of_int (toFixed_n x) - of_int S / of_int N * 100 * 100\<bar> \<le> (1 / 2 :: rat)"
proof -
  define s :: rat where "s = of_int S / of_int N"
  define y where "y = fl s"
  have N: "(0::rat) < of_int N" using assms(3) by simp
  have s: "0 \<le> s" "s \<le> 1"
    using assms(1,2,3) by (simp_all add: s_def)
  have x: "x = fl (y * 100)"
    by (simp add: x_def fmul_def fdiv_def y_def s_def)
  have "\<bar>y - s\<bar> \<le> s / 2 ^ 53"
    using fl_error [of s] s by (simp add: y_def)
  then have y: "\<bar>y - s\<bar> \<le> 1 / 2 ^ 53"
    using s by simp
  have y0: "0 \<le> y"
    using s by (simp add: y_def fl_nonneg)
  show "0 \<le> x"
    unfolding x using y0 by (intro fl_nonneg) simp
  have "\<bar>x - y * 100\<bar> \<le> \<bar>y * 100\<bar> / 2 ^ 53"
    unfolding x by (rule fl_error)
  moreover have "\<bar>y * 100\<bar> \<le> 101"
    using y s y0 by (simp only: abs_le_iff) simp
  ultimately have "\<bar>x - y * 100\<bar> \<le> 101 / 2 ^ 53"
    by simp
  moreover have "\<bar>y * 100 - s * 100\<bar> \<le> 100 / 2 ^ 53"
    using y by (simp only: abs_le_iff) simp
  ultimately have "\<bar>x - s * 100\<bar> \<le> 201 / 2 ^ 53"
    by (simp only: abs_le_iff) simp
  then have close: "100 * \<bar>x - s * 100\<bar> \<le> 20100 / 2 ^ 53"
    by simp
  have "2 * N < 2 ^ 33"
    using assms(4) by simp
  then have "(of_int (2 * N) :: rat) < of_int (2 ^ 33)"
    by (simp only: of_int_less_iff)
  then have "of_int (2 * N) < (2::rat) ^ 33"
    by simp
  then have "(20100::rat) / 2 ^ 53 < 1 / of_int (2 * N)"
    using N by (simp add: field_simps)
  with close have lt: "100 * \<bar>x - s * 100\<bar> < 1 / of_int (2 * N)"
    by linarith
  have grid: "of_int (20000 * S + N) / of_int (2 * N) - 1 / 2 = s * 100 * 100"
    using N by (simp add: s_def field_simps)
  have "\<bar>of_int (toFixed_n x) - (of_int (20000 * S + N) / of_int (2 * N) - 1 / 2)\<bar> \<le> (1 / 2 :: rat)"
  proof (rule toFixed_n_nearest)
    show "0 \<le> x" by fact
    show "0 < 2 * N" using assms(3) by simp
    show "100 * \<bar>x - (of_int (20000 * S + N) / of_int (2 * N) - 1 / 2) / 100\<bar> < 1 / of_int (2 * N)"
      unfolding grid using lt by (simp add: mult.commute)
  qed
  then show "\<bar>of_int (toFixed_n x) - of_int S / of_int N * 100 * 100\<bar> \<le> (1 / 2 :: rat)"
    unfolding grid by (simp add: s_def)
qed

lemma average_nearest:
  fixes A S :: int
  assumes "0 \<le> A" and "A < 2 ^ 45" and "0 < S"
  defines "x \<equiv> fdiv (of_int A) (of_int S)"
  shows "0 \<le> x" and "\<bar>of_int (toFixed_n x) - of_int A / of_int S * 100\<bar> \<le> (1 / 2 :: rat)"
proof -
  define q :: rat where "q = of_int A / of_int S"
  have S: "(0::rat) < of_int S" using assms(3) by simp
  have q: "0 \<le> q"
    using assms(1,3) by (simp add: q_def)
  have x: "x = fl q"
    by (simp add: x_def fdiv_def q_def)
  show "0 \<le> x"
    unfolding x using q by (rule fl_nonneg)
  have "\<bar>x - q\<bar> \<le> q / 2 ^ 53"
    using fl_error [of q] q by (simp add: x)
  then have "100 * \<bar>x - q\<bar> \<le> 100 * (q / 2 ^ 53)"
    by simp
  also have "\<dots> = of_int (200 * A) / 2 ^ 53 * (1 / of_int (2 * S))"
    using S by (simp add: q_def)
  also have "\<dots> < 1 * (1 / of_int (2 * S))"
  proof (rule mult_strict_right_mono)
    have "200 * A < 2 ^ 53"
      using assms(2) by simp
    then have "(of_int (200 * A) :: rat) < of_int (2 ^ 53)"
      by (simp only: of_int_less_iff)
    then have "of_int (200 * A) < (2::rat) ^ 53"
      by simp
    then show "of_int (200 * A) / 2 ^ 53 < (1::rat)"
      by simp
    show "(0::rat) < 1 / of_int (2 * S)"
      using S by simp
  qed
  finally have lt: "100 * \<bar>x - q\<bar> < 1 / of_int (2 * S)"
    by simp
  have grid: "of_int (200 * A + S) / of_int (2 * S) - 1 / 2 = q * 100"
    using S by (simp add: q_def field_simps)
  have "\<bar>of_int (toFixed_n x) - (of_int (200 * A + S) / of_int (2 * S) - 1 / 2)\<bar> \<le> (1 / 2 :: rat)"
  proof (rule toFixed_n_nearest)
    show "0 \<le> x" by fact
    show "0 < 2 * S" using assms(3) by simp
    show "100 * \<bar>x - (of_int (200 * A + S) / of_int (2 * S) - 1 / 2) / 100\<bar> < 1 / of_int (2 * S)"
      unfolding grid using lt by (simp add: mult.commute)
  qed
  then show "\<bar>of_int (toFixed_n x) - of_int A / of_int S * 100\<bar> \<le> (1 / 2 :: rat)"
    unfolding grid by (simp add: q_def)
qed


section \<open>The summary of a log\<close>

lemma digit_cases:
  assumes "0 \<le> d" and "d < 10"
  shows "digit_value (digit d) = d" and "digit d \<noteq> CHR ''.''"
proof -
  from assms have "d = 0 \<or> d = 1 \<or> d = 2 \<or> d = 3 \<or> d = 4 \<or> d = 5 \<or> d = 6 \<or> d = 7 \<or> d = 8 \<or> d = 9"
    by arith
  then show "digit_value (digit d) = d" and "digit d \<noteq> CHR ''.''"
    by (auto simp: digit_def digit_value_def)
qed

lemma decimal_value_snoc: "decimal_value (s @ [c]) = 10 * decimal_value s + digit_value c"
  by (simp add: decimal_value_def)

lemma digits_read_back: "0 \<le> n \<Longrightarrow> decimal_value (digits n) = n \<and> CHR ''.'' \<notin> set (digits n)"
proof (induction n rule: digits.induct)
  case (1 n)
  show ?case
  proof (cases "n < 10")
    case True
    with "1.prems" digit_cases [of n] show ?thesis
      by (subst (1 2) digits.simps) (simp add: decimal_value_def)
  next
    case False
    with "1.prems" have IH: "decimal_value (digits (n div 10)) = n div 10"
      "CHR ''.'' \<notin> set (digits (n div 10))"
      using "1.IH" by simp_all
    have "0 \<le> n mod 10" "n mod 10 < 10" by simp_all
    from digit_cases [OF this] IH False show ?thesis
      by (subst (1 2) digits.simps) (simp add: decimal_value_snoc)
  qed
qed

lemma decimal_value_zeros: "decimal_value (replicate k CHR ''0'' @ s) = decimal_value s"
  by (induction k) (simp_all add: decimal_value_def digit_value_def)

lemma read_fixed2_fixed2:
  assumes "0 \<le> n"
  shows "read_fixed2 (fixed2 n) = of_int n / 100"
proof -
  define m where "m = (if length (digits n) \<le> 2
                       then replicate (3 - length (digits n)) CHR ''0'' @ digits n else digits n)"
  have nodot: "CHR ''.'' \<notin> set m"
    using digits_read_back [OF assms] by (auto simp: m_def)
  have val: "decimal_value m = n"
    using digits_read_back [OF assms] by (simp add: m_def decimal_value_zeros)
  have "fixed2 n = take (length m - 2) m @ ''.'' @ drop (length m - 2) m"
    by (simp add: fixed2_def m_def Let_def)
  then have "filter (\<lambda>c. c \<noteq> CHR ''.'') (fixed2 n)
               = filter (\<lambda>c. c \<noteq> CHR ''.'') (take (length m - 2) m @ drop (length m - 2) m)"
    by (simp only: filter_append filter.simps) simp
  also have "\<dots> = filter (\<lambda>c. c \<noteq> CHR ''.'') m"
    by (simp only: append_take_drop_id)
  also have "\<dots> = m"
    using nodot by (auto simp: filter_id_conv)
  finally show ?thesis
    by (simp add: read_fixed2_def val)
qed

lemma fixed2_examples:
  "fixed2 0 = ''0.00''" "fixed2 5 = ''0.05''" "fixed2 42 = ''0.42''" "fixed2 6667 = ''66.67''"
  "fixed2 10000 = ''100.00''"
  by code_simp+

lemma toFixed2_nonneg: "0 \<le> x \<Longrightarrow> toFixed2 x = fixed2 (toFixed_n x)"
  by (simp add: toFixed2_def)

lemma toFixed_n_nonneg: "0 \<le> toFixed_n x"
  by (simp add: toFixed_n_def)

lemma hundredths_close:
  fixes n :: int and v :: rat
  shows "\<bar>of_int n - v * 100\<bar> \<le> 1 / 2 \<Longrightarrow> \<bar>of_int n / 100 - v\<bar> \<le> 1 / 200"
  by (simp only: abs_le_iff) simp

text \<open>
  Claim C1. For a log of \<open>N\<close> records with \<open>S\<close> successes the summary has
  \<^verbatim>\<open>totalChecks\<close> \<open>N\<close>, \<^verbatim>\<open>successful\<close> \<open>S\<close> and \<^verbatim>\<open>failed\<close> \<open>N - S\<close>. Its \<^verbatim>\<open>uptimePercentage\<close> is
  \<^verbatim>\<open>'N/A'\<close> when \<open>N = 0\<close>; when \<open>0 < N\<close> it is a number of hundredths \<open>n\<close> written with two
  decimals, and \<open>n / 100\<close> is \<open>S / N * 100\<close> rounded to two decimals: no further from the
  exact percentage than half a hundredth. The length of a JavaScript array is below \<open>2^32\<close>.
\<close>

theorem summary_counts_and_uptime:
  fixes results :: "CheckResult list"
  assumes "length results < 2 ^ 32"
  defines "N \<equiv> int (length results)"
      and "S \<equiv> int (length (filter success results))"
      and "sm \<equiv> computeSummaryForResults results"
  shows "totalChecks sm = N \<and> successful sm = S \<and> failed sm = N - S \<and>
         (N = 0 \<longrightarrow> uptimePercentage sm = ''N/A'') \<and>
         (0 < N \<longrightarrow>
            (\<exists>n. uptimePercentage sm = fixed2 n \<and> 0 \<le> n \<and>
                 read_fixed2 (uptimePercentage sm) = of_int n / 100 \<and>
                 \<bar>of_int n / 100 - of_int S / of_int N * 100\<bar> \<le> (1 / 200 :: rat)))"
proof -
  have counts: "totalChecks sm = N" "successful sm = S" "failed sm = N - S"
    by (simp_all add: sm_def N_def S_def computeSummaryForResults_def Let_def)
  have sentinel: "N = 0 \<longrightarrow> uptimePercentage sm = ''N/A''"
    by (simp add: sm_def N_def computeSummaryForResults_def Let_def)
  have rounded: "\<exists>n. uptimePercentage sm = fixed2 n \<and> 0 \<le> n \<and>
                   read_fixed2 (uptimePercentage sm) = of_int n / 100 \<and>
                   \<bar>of_int n / 100 - of_int S / of_int N * 100\<bar> \<le> (1 / 200 :: rat)"
    if pos: "0 < N"
  proof -
    define x where "x = fmul (fdiv (of_int S) (of_int N)) 100"
    have "0 \<le> S" and "S \<le> N" and "N < 2 ^ 32"
      using assms(1) by (simp_all add: S_def N_def)
    from uptime_nearest [OF this(1,2) pos this(3)]
    have x0: "0 \<le> x" and near: "\<bar>of_int (toFixed_n x) - of_int S / of_int N * 100 * 100\<bar> \<le> (1 / 2 :: rat)"
      by (simp_all add: x_def)
    have "uptimePercentage sm = toFixed2 x"
      using pos by (simp add: sm_def N_def S_def x_def computeSummaryForResults_def Let_def)
    then have printed: "uptimePercentage sm = fixed2 (toFixed_n x)"
      using x0 by (simp add: toFixed2_nonneg)
    moreover have "read_fixed2 (uptimePercentage sm) = of_int (toFixed_n x) / 100"
      unfolding printed by (rule read_fixed2_fixed2) (rule toFixed_n_nonneg)
    moreover have "\<bar>of_int (toFixed_n x) / 100 - of_int S / of_int N * 100\<bar> \<le> (1 / 200 :: rat)"
      using near by (rule hundredths_close)
    ultimately show ?thesis
      using toFixed_n_nonneg [of x] by blast
  qed
  from counts sentinel rounded show ?thesis
    by blast
qed

theorem summary_counts_and_uptime_witness:
  "length scenario_log < 2 ^ 32 \<and>
   totalChecks (computeSummaryForResults scenario_log) = 3 \<and>
   successful (computeSummaryForResults scenario_log) = 2 \<and>
   failed (computeSummaryForResults scenario_log) = 1 \<and>
   (\<exists>n. uptimePercentage (computeSummaryForResults scenario_log) = fixed2 n \<and> 0 \<le> n \<and>
        read_fixed2 (uptimePercentage (computeSummaryForResults scenario_log)) = of_int n / 100 \<and>
        \<bar>of_int n / 100 - 2 / 3 * 100\<bar> \<le> (1 / 200 :: rat))"
proof -
  have len: "length scenario_log < 2 ^ 32"
    by (simp add: scenario_log_def)
  have "int (length scenario_log) = 3" "int (length (filter success scenario_log)) = 2"
    by (simp_all add: scenario_log_def cycle_result_def checkWebsite_result_def ok_cycle_def
        timeout_cycle_def)
  with summary_counts_and_uptime [OF len] len show ?thesis
    by simp
qed

text \<open>
  Claim C4. \<^verbatim>\<open>averageResponseTime\<close> is \<^verbatim>\<open>'N/A'\<close> when the log has no successful record;
  otherwise it is a number of hundredths \<open>n\<close> written with two decimals, and \<open>n / 100\<close> is the
  mean of \<^verbatim>\<open>responseTime\<close> over the successful records, the failed ones left out, rounded to
  two decimals: no further from the exact mean than half a hundredth. Response times are taken
  non-negative, as durations are, and their sum below \<open>2^45\<close> milliseconds (over a thousand
  years).
\<close>

theorem average_over_successful_only:
  fixes results :: "CheckResult list"
  assumes "\<forall>c \<in> set results. success c \<longrightarrow> 0 \<le> responseTime c"
      and "sum_list (map responseTime (filter success results)) < 2 ^ 45"
  defines "succ \<equiv> filter success results"
      and "sm \<equiv> computeSummaryForResults results"
  shows "(succ = [] \<longrightarrow> averageResponseTime sm = ''N/A'') \<and>
         (succ \<noteq> [] \<longrightarrow>
            (\<exists>n. averageResponseTime sm = fixed2 n \<and> 0 \<le> n \<and>
                 read_fixed2 (averageResponseTime sm) = of_int n / 100 \<and>
                 \<bar>of_int n / 100
                    - of_int (sum_list (map responseTime succ)) / of_int (int (length succ))\<bar>
                 \<le> (1 / 200 :: rat)))"
proof -
  have sentinel: "succ = [] \<longrightarrow> averageResponseTime sm = ''N/A''"
    by (simp add: sm_def succ_def computeSummaryForResults_def Let_def)
  have rounded: "\<exists>n. averageResponseTime sm = fixed2 n \<and> 0 \<le> n \<and>
                   read_fixed2 (averageResponseTime sm) = of_int n / 100 \<and>
                   \<bar>of_int n / 100
                      - of_int (sum_list (map responseTime succ)) / of_int (int (length succ))\<bar>
                   \<le> (1 / 200 :: rat)"
    if ne: "succ \<noteq> []"
  proof -
    define A where "A = sum_list (map responseTime succ)"
    define x where "x = fdiv (of_int A) (of_int (int (length succ)))"
    have nonneg: "\<forall>c \<in> set succ. 0 \<le> responseTime c"
      using assms(1) by (simp add: succ_def)
    then have A0: "0 \<le> A"
      unfolding A_def by (intro sum_list_nonneg) auto
    have A45: "A < 2 ^ 45"
      using assms(2) by (simp add: A_def succ_def)
    then have "A < 2 ^ 53"
      by simp
    with nonneg have exact: "sumResponseTime succ = of_int A"
      unfolding A_def by (intro sumResponseTime_exact) simp_all
    have len: "0 < int (length succ)"
      using ne by simp
    from average_nearest [OF A0 A45 len]
    have x0: "0 \<le> x"
      and near: "\<bar>of_int (toFixed_n x) - of_int A / of_int (int (length succ)) * 100\<bar> \<le> (1 / 2 :: rat)"
      by (simp_all add: x_def)
    have "averageResponseTime sm = toFixed2 x"
      using ne exact
      by (simp add: sm_def x_def computeSummaryForResults_def Let_def flip: succ_def)
    then have printed: "averageResponseTime sm = fixed2 (toFixed_n x)"
      using x0 by (simp add: toFixed2_nonneg)
    moreover have "read_fixed2 (averageResponseTime sm) = of_int (toFixed_n x) / 100"
      unfolding printed by (rule read_fixed2_fixed2) (rule toFixed_n_nonneg)
    moreover have "\<bar>of_int (toFixed_n x) / 100 - of_int A / of_int (int (length succ))\<bar> \<le> (1 / 200 :: rat)"
      using near by (rule hundredths_close)
    ultimately show ?thesis
      using toFixed_n_nonneg [of x] unfolding A_def by blast
  qed
  from sentinel rounded show ?thesis
    by blast
qed

theorem average_over_successful_only_witness:
  "map responseTime (filter success scenario_log) = [100, 300] \<and>
   sum_list (map responseTime (filter success scenario_log)) < 2 ^ 45 \<and>
   filter success scenario_log \<noteq> [] \<and>
   (\<exists>n. averageResponseTime (computeSummaryForResults scenario_log) = fixed2 n \<and> 0 \<le> n \<and>
        read_fixed2 (averageResponseTime (computeSummaryForResults scenario_log)) = of_int n / 100 \<and>
        \<bar>of_int n / 100 - 400 / 2\<bar> \<le> (1 / 200 :: rat))"
proof -
  have succ: "filter success scenario_log =
                [cycle_result (ok_cycle 100 monday), cycle_result (ok_cycle 300 monday)]"
    by (simp add: scenario_log_def cycle_result_def checkWebsite_result_def ok_cycle_def
        timeout_cycle_def)
  have rt: "responseTime (cycle_result (ok_cycle 100 monday)) = 100"
    "responseTime (cycle_result (ok_cycle 300 monday)) = 300"
    "responseTime (cycle_result (timeout_cycle monday)) = 10003"
    by (simp_all add: cycle_result_def checkWebsite_result_def ok_cycle_def timeout_cycle_def)
  have h1: "\<forall>c \<in> set scenario_log. success c \<longrightarrow> 0 \<le> responseTime c"
    by (simp add: scenario_log_def rt)
  have h2: "sum_list (map responseTime (filter success scenario_log)) < 2 ^ 45"
    by (simp add: succ rt)
  from average_over_successful_only [OF h1 h2] h2 show ?thesis
    by (simp add: succ rt)
qed

text \<open>
  When the exact value lies halfway between two numbers of two decimals, the double next to
  it decides: \<open>23 / 160 * 100 = 14.375\<close> is computed a little below and printed down,
  \<open>1 / 160 * 100 = 0.625\<close> is computed exactly and printed up.
\<close>

lemma tie_rounded_down: "toFixed2 (fmul (fdiv 23 160) 100) = ''14.37''"
  by code_simp

lemma tie_rounded_up: "toFixed2 (fmul (fdiv 1 160) 100) = ''0.63''"
  by code_simp

text \<open>The scenario of the specification, evaluated.\<close>

lemma scenario_summary:
  "computeSummaryForResults scenario_log =
     \<lparr>totalChecks = 3, successful = 2, failed = 1,
      uptimePercentage = ''66.67'', averageResponseTime = ''200.00''\<rparr>"
  by code_simp


section \<open>One cycle of \<^verbatim>\<open>checkWebsite\<close>\<close>

lemma computeSummaryForResults_Nil: "computeSummaryForResults [] = emptySummary"
  by (simp add: computeSummaryForResults_def emptySummary_def)

lemma rollover_cases:
  "rollover s now =
     (if toDateString now \<noteq> currentDayKey s
      then ([DailySummaryUpdate (\<lparr>date = toISOString now, logs = [], summary = emptySummary\<rparr>
                                  # currentDayData s # pastDays s)],
            \<lparr>currentDayKey = toDateString now,
             currentDayData = \<lparr>date = toISOString now, logs = [], summary = emptySummary\<rparr>,
             pastDays = currentDayData s # pastDays s\<rparr>)
      else ([], s))"
  by (simp add: rollover_def Let_def)

lemma checkWebsite_changed:
  assumes "day_changed s c"
  shows "checkWebsite s c =
     (Undefined,
      [DailySummaryUpdate (\<lparr>date = toISOString (now_date c), logs = [], summary = emptySummary\<rparr>
                            # currentDayData s # pastDays s),
       NewCheck (cycle_result c),
       SummaryUpdate (computeSummaryForResults [cycle_result c]),
       DailySummaryUpdate (\<lparr>date = toISOString (now_date c), logs = [cycle_result c],
                             summary = computeSummaryForResults [cycle_result c]\<rparr>
                            # currentDayData s # pastDays s)],
      \<lparr>currentDayKey = toDateString (now_date c),
       currentDayData = \<lparr>date = toISOString (now_date c), logs = [cycle_result c],
                         summary = computeSummaryForResults [cycle_result c]\<rparr>,
       pastDays = currentDayData s # pastDays s\<rparr>)"
  using assms
  by (simp add: checkWebsite_def checkWebsite_record_def rollover_cases day_changed_def Let_def)

lemma checkWebsite_same:
  assumes "\<not> day_changed s c"
  shows "checkWebsite s c =
     (Undefined,
      [NewCheck (cycle_result c),
       SummaryUpdate (computeSummaryForResults (logs (currentDayData s) @ [cycle_result c])),
       DailySummaryUpdate
         ((currentDayData s)\<lparr>logs := logs (currentDayData s) @ [cycle_result c],
                             summary := computeSummaryForResults
                                          (logs (currentDayData s) @ [cycle_result c])\<rparr>
          # pastDays s)],
      s\<lparr>currentDayData :=
          (currentDayData s)\<lparr>logs := logs (currentDayData s) @ [cycle_result c],
                              summary := computeSummaryForResults
                                           (logs (currentDayData s) @ [cycle_result c])\<rparr>\<rparr>)"
  using assms
  by (simp add: checkWebsite_def checkWebsite_record_def rollover_cases day_changed_def Let_def)

lemma monday_state_key: "currentDayKey monday_state = ''Mon Nov 02 2026''"
  by (simp add: monday_state_def initial_state_def checkWebsite_def checkWebsite_record_def
      rollover_cases monday_def ok_cycle_def timeout_cycle_def Let_def)

lemma monday_state_past: "pastDays monday_state = []"
  by (simp add: monday_state_def initial_state_def checkWebsite_def checkWebsite_record_def
      rollover_cases monday_def ok_cycle_def timeout_cycle_def Let_def)

lemma friday_changed: "day_changed monday_state (ok_cycle 250 friday)"
  by (simp add: day_changed_def monday_state_key ok_cycle_def friday_def)

lemma monday_unchanged: "\<not> day_changed monday_state (ok_cycle 120 monday)"
  by (simp add: day_changed_def monday_state_key ok_cycle_def monday_def)


section \<open>Rollover\<close>

text \<open>
  Claim C2. A cycle that finds the calendar day changed (line 82) rolls over exactly once,
  however long ago the active day was: the active bucket, summary included, becomes the head
  of \<^verbatim>\<open>pastDays\<close>, which grows by one entry; the new bucket is keyed and dated to the current
  day and holds the incoming result alone. A cycle that finds the day unchanged leaves
  \<^verbatim>\<open>pastDays\<close>, the key and the bucket's date alone and appends the result to the active log.
\<close>

theorem rollover_exactly_once:
  fixes s :: server_state and c :: cycle
  defines "s' \<equiv> snd (snd (checkWebsite s c))"
  shows "(day_changed s c \<longrightarrow>
            pastDays s' = currentDayData s # pastDays s \<and>
            length (pastDays s') = Suc (length (pastDays s)) \<and>
            currentDayKey s' = toDateString (now_date c) \<and>
            date (currentDayData s') = toISOString (now_date c) \<and>
            logs (currentDayData s') = [cycle_result c]) \<and>
         (\<not> day_changed s c \<longrightarrow>
            pastDays s' = pastDays s \<and>
            currentDayKey s' = currentDayKey s \<and>
            date (currentDayData s') = date (currentDayData s) \<and>
            logs (currentDayData s') = logs (currentDayData s) @ [cycle_result c])"
  unfolding s'_def
  by (cases "day_changed s c") (simp_all add: checkWebsite_changed checkWebsite_same)

text \<open>For instance: after two checks on Monday the next one comes on Friday, or on Monday.\<close>

theorem rollover_exactly_once_witness:
  "day_changed monday_state (ok_cycle 250 friday) \<and>
   pastDays (snd (snd (checkWebsite monday_state (ok_cycle 250 friday)))) =
     [currentDayData monday_state] \<and>
   logs (currentDayData (snd (snd (checkWebsite monday_state (ok_cycle 250 friday))))) =
     [cycle_result (ok_cycle 250 friday)] \<and>
   \<not> day_changed monday_state (ok_cycle 120 monday) \<and>
   pastDays (snd (snd (checkWebsite monday_state (ok_cycle 120 monday)))) = []"
  using rollover_exactly_once [of monday_state "ok_cycle 250 friday"]
    rollover_exactly_once [of monday_state "ok_cycle 120 monday"]
    friday_changed monday_unchanged
  by (simp add: monday_state_past)

text \<open>The scenario of the specification: the day rolls over between the second record and
  the third.\<close>

lemma rollover_scenario:
  "pastDays (run (initial_state monday monday)
               [ok_cycle 100 monday, timeout_cycle monday, ok_cycle 300 tuesday])
     = [currentDayData monday_state] \<and>
   logs (currentDayData (run (initial_state monday monday)
               [ok_cycle 100 monday, timeout_cycle monday, ok_cycle 300 tuesday]))
     = [cycle_result (ok_cycle 300 tuesday)] \<and>
   logs (currentDayData monday_state)
     = [cycle_result (ok_cycle 100 monday), cycle_result (timeout_cycle monday)]"
proof -
  have "day_changed monday_state (ok_cycle 300 tuesday)"
    by (simp add: day_changed_def monday_state_key ok_cycle_def tuesday_def)
  then have "pastDays (snd (snd (checkWebsite monday_state (ok_cycle 300 tuesday)))) = [currentDayData monday_state]"
    "logs (currentDayData (snd (snd (checkWebsite monday_state (ok_cycle 300 tuesday))))) = [cycle_result (ok_cycle 300 tuesday)]"
    by (simp_all add: checkWebsite_changed monday_state_past)
  moreover have "logs (currentDayData monday_state)
     = [cycle_result (ok_cycle 100 monday), cycle_result (timeout_cycle monday)]"
    by (simp add: monday_state_def initial_state_def checkWebsite_def checkWebsite_record_def
      rollover_cases monday_def ok_cycle_def timeout_cycle_def Let_def)
  ultimately show ?thesis
    by (simp add: monday_state_def)
qed

text \<open>An archived bucket is never touched again: later cycles only put buckets in front.\<close>

lemma checkWebsite_keeps_history:
  "\<exists>new. pastDays (snd (snd (checkWebsite s c))) = new @ pastDays s"
  by (cases "day_changed s c") (simp_all add: checkWebsite_changed checkWebsite_same)

lemma run_keeps_history: "\<exists>new. pastDays (run s cs) = new @ pastDays s"
proof (induction cs arbitrary: s)
  case Nil
  show ?case by simp
next
  case (Cons c cs)
  from Cons.IH [of "snd (snd (checkWebsite s c))"] checkWebsite_keeps_history [of s c]
  show ?case by auto
qed


section \<open>Consistency of the stored summaries\<close>

lemma fresh_bucket_consistent:
  "summary_consistent \<lparr>date = d, logs = [], summary = emptySummary\<rparr>"
  by (simp add: summary_consistent_def computeSummaryForResults_Nil)

lemma checkWebsite_consistent:
  assumes "store_consistent s"
  shows "store_consistent (snd (snd (checkWebsite s c)))"
proof (cases "day_changed s c")
  case True
  with assms show ?thesis
    by (simp add: checkWebsite_changed store_consistent_def summary_consistent_def)
next
  case False
  with assms show ?thesis
    by (simp add: checkWebsite_same store_consistent_def summary_consistent_def)
qed

lemma run_consistent: "store_consistent s \<Longrightarrow> store_consistent (run s cs)"
  by (induction cs arbitrary: s) (simp_all add: checkWebsite_consistent)

lemma initial_consistent: "store_consistent (initial_state d1 d2)"
  by (simp add: store_consistent_def initial_state_def fresh_bucket_consistent)

text \<open>
  Claim C5. The literal summary of a fresh bucket is the summary of the empty log; in the
  state at process start and in the state after any sequence of \<^verbatim>\<open>checkWebsite\<close> cycles, with
  or without rollovers, the summary of the active bucket and the summary of every archived
  bucket are the summaries computed from their logs.
\<close>

theorem summaries_consistent_in_every_state:
  "computeSummaryForResults [] = emptySummary \<and>
   store_consistent (initial_state d1 d2) \<and>
   store_consistent (run (initial_state d1 d2) cs)"
  by (simp add: computeSummaryForResults_Nil initial_consistent run_consistent)


section \<open>What a cycle returns\<close>





section \<open>The result of a probe\<close>

text \<open>
  Claim C7. Whatever the request does, lines 56-78 build a result: it has an \<^verbatim>\<open>error\<close> exactly
  when \<^verbatim>\<open>success\<close> is false. A rejected request gives \<^verbatim>\<open>success = false\<close>, the status of the
  response if the error carries one and \<^verbatim>\<open>null\<close> otherwise, and the message of the error; a
  fulfilled one gives \<^verbatim>\<open>success = true\<close>, the status of the response and no \<^verbatim>\<open>error\<close>. The
  rejection is a case of \<open>checkWebsite_result\<close>, as it is a case of the \<^verbatim>\<open>try\<close>/\<^verbatim>\<open>catch\<close>.
\<close>

theorem result_error_iff_failure:
  fixes start finish :: int and ts :: date_obj and outcome :: axios_outcome
  defines "r \<equiv> checkWebsite_result start outcome finish ts"
  shows "(error r \<noteq> None \<longleftrightarrow> \<not> success r) \<and>
         (\<forall>err. outcome = Rejected err \<longrightarrow>
            \<not> success r \<and>
            status r = map_option response_status (error_response err) \<and>
            error r = Some (error_message err) \<and>
            responseTime r = finish - start) \<and>
         (\<forall>response. outcome = Fulfilled response \<longrightarrow>
            success r \<and> status r = Some (response_status response) \<and> error r = None)"
  unfolding r_def
  by (cases outcome) (auto simp: checkWebsite_result_def split: option.splits)

theorem result_error_iff_failure_witness:
  "\<not> success (cycle_result (timeout_cycle monday)) \<and>
   status (cycle_result (timeout_cycle monday)) = None \<and>
   error (cycle_result (timeout_cycle monday)) = Some ''timeout of 10000ms exceeded'' \<and>
   success (cycle_result (ok_cycle 100 monday)) \<and>
   error (cycle_result (ok_cycle 100 monday)) = None"
  using result_error_iff_failure
          [of 0 "Rejected (AxiosError None ''timeout of 10000ms exceeded'')" 10003 monday]
    result_error_iff_failure [of 0 "Fulfilled (AxiosResponse 200)" 100 monday]
  by (simp add: cycle_result_def timeout_cycle_def ok_cycle_def)


section \<open>The events of a cycle\<close>

text \<open>
  Claim C9. A cycle that rolls over emits \<^verbatim>\<open>dailySummaryUpdate\<close> twice: first, from inside the
  rollover, with the new bucket still empty and its summary the zero literal, in front of the
  archived days; then, after the append, with the bucket that holds the result. A cycle that
  does not roll over emits it once.
\<close>

theorem dailySummaryUpdate_twice_on_rollover:
  fixes s :: server_state and c :: cycle
  defines "emitted \<equiv> fst (snd (checkWebsite s c))"
      and "s' \<equiv> snd (snd (checkWebsite s c))"
  shows "(day_changed s c \<longrightarrow>
            dailySummaryUpdates emitted =
              [\<lparr>date = toISOString (now_date c), logs = [], summary = emptySummary\<rparr>
                 # currentDayData s # pastDays s,
               currentDayData s' # pastDays s'] \<and>
            logs (currentDayData s') = [cycle_result c]) \<and>
         (\<not> day_changed s c \<longrightarrow>
            dailySummaryUpdates emitted = [currentDayData s' # pastDays s'])"
  unfolding emitted_def s'_def
  by (cases "day_changed s c") (simp_all add: checkWebsite_changed checkWebsite_same)

theorem dailySummaryUpdate_twice_on_rollover_witness:
  "day_changed monday_state (ok_cycle 250 friday) \<and>
   length (dailySummaryUpdates (fst (snd (checkWebsite monday_state (ok_cycle 250 friday))))) = 2 \<and>
   \<not> day_changed monday_state (ok_cycle 120 monday) \<and>
   length (dailySummaryUpdates (fst (snd (checkWebsite monday_state (ok_cycle 120 monday))))) = 1"
  using dailySummaryUpdate_twice_on_rollover [of monday_state "ok_cycle 250 friday"]
    dailySummaryUpdate_twice_on_rollover [of monday_state "ok_cycle 120 monday"]
    friday_changed monday_unchanged
  by simp


section \<open>The two variants\<close>

text \<open>
  Claim C10. \<^verbatim>\<open>computeSummary()\<close> of the rolling-list variant, run with a list as its
  \<^verbatim>\<open>checkResults\<close>, returns the summary that \<^verbatim>\<open>computeSummaryForResults\<close> of the day-bucketed
  variant returns for that list.
\<close>

theorem computeSummary_eq_computeSummaryForResults:
  "computeSummary \<lparr>checkResults = results\<rparr> = computeSummaryForResults results"
  by (simp add: computeSummary_def computeSummaryForResults_def sumResponseTime_def Let_def)


section \<open>Side effects of the summary computation\<close>

lemma computeSummaryForResults_store_eq:
  "computeSummaryForResults_store st results =
     (computeSummaryForResults (st ! results), st @ [filter success (st ! results)])"
  by (simp add: computeSummaryForResults_store_def computeSummaryForResults_def Let_def)

text \<open>
  Claim C8. Called on a log in the store, \<^verbatim>\<open>computeSummaryForResults\<close> leaves the log and every
  other array that existed as they were, and its result depends on the log alone: a second
  call, in the store the first call has left, returns the same summary.
\<close>

theorem summary_twice_same:
  assumes "results < length st"
  shows "fst (computeSummaryForResults_store (snd (computeSummaryForResults_store st results)) results)
           = fst (computeSummaryForResults_store st results) \<and>
         snd (computeSummaryForResults_store st results) ! results = st ! results \<and>
         take (length st) (snd (computeSummaryForResults_store st results)) = st \<and>
         fst (computeSummaryForResults_store st results) = computeSummaryForResults (st ! results)"
  using assms by (simp add: computeSummaryForResults_store_eq nth_append)

theorem summary_twice_same_witness:
  "0 < length example_store \<and>
   fst (computeSummaryForResults_store (snd (computeSummaryForResults_store example_store 0)) 0)
     = fst (computeSummaryForResults_store example_store 0)"
  using summary_twice_same [of 0 example_store] by (simp add: example_store_def)


section \<open>Probes in flight\<close>

lemma not_in_flight_earlier:
  assumes "\<And>k. duration k \<le> CHECK_INTERVAL" and "k < t div CHECK_INTERVAL"
  shows "\<not> (dispatched_at k \<le> t \<and> t < dispatched_at k + duration k)"
proof -
  have "dispatched_at k + duration k \<le> Suc k * CHECK_INTERVAL"
    using assms(1) [of k] by (simp add: dispatched_at_def)
  also have "\<dots> \<le> (t div CHECK_INTERVAL) * CHECK_INTERVAL"
    using assms(2) by (intro mult_le_mono1) simp
  also have "\<dots> \<le> t"
    by simp
  finally show ?thesis by simp
qed

text \<open>
  With probes of 70 seconds, the direct call and the call of the first tick are both in
  flight at 60 seconds: the timer does not wait for a running probe.
\<close>

theorem probes_overlap_when_slow: "length (in_flight slow_probes 60000) = 2"
  by (simp add: in_flight_def slow_probes_def dispatched_at_def CHECK_INTERVAL_def
      upt_rec [of 0] upt_rec [of 1] upt_rec [of 2])

text \<open>
  Claim C3, amended. When no probe lasts longer than the tick interval, at most one probe is
  in flight at any time.
\<close>

theorem at_most_one_probe_when_fast:
  assumes "\<forall>k. duration k \<le> CHECK_INTERVAL"
  shows "length (in_flight duration t) \<le> 1"
proof -
  have "filter (\<lambda>k. dispatched_at k \<le> t \<and> t < dispatched_at k + duration k)
          [0 ..< t div CHECK_INTERVAL] = []"
    using assms not_in_flight_earlier [of duration _ t] by (simp add: filter_empty_conv)
  then show ?thesis
    by (simp add: in_flight_def)
qed

theorem at_most_one_probe_when_fast_witness:
  "(\<forall>k. fast_probes k \<le> CHECK_INTERVAL) \<and> length (in_flight fast_probes 60000) \<le> 1"
  using at_most_one_probe_when_fast [of fast_probes 60000]
  by (simp add: fast_probes_def CHECK_INTERVAL_def)

end
